theory Spec2Isabelle
  imports Main
begin

section \<open>Python values and element trees\<close>

text \<open>
  The values \<open>yaml.safe_load\<close> hands to \<open>build_bundle\<close>: null, booleans, integers,
  strings, sequences and mappings (a mapping as the list of its items, keys distinct).
  Floats, timestamps and binary scalars are not represented.
\<close>

datatype pyval =
    PNone
  | PBool bool
  | PInt int
  | PStr string
  | PList "pyval list"
  | PDict "(pyval \<times> pyval) list"

text \<open>
  An \<open>xml.etree.ElementTree.Element\<close>: tag, attribute dictionary, text, tail, children.
  \<open>text\<close> and \<open>tail\<close> are ordinary Python attributes: the parser stores \<open>None\<close> or a
  string there, but \<open>title.text = bundle_name\<close> stores whatever the configuration gave.
\<close>

datatype element =
  Element (tag: string) (attrib: "(string \<times> string) list") (elem_text: pyval)
          (elem_tail: pyval)
          (children: "element list")

text \<open>Exceptions of \<open>ET.parse\<close>, each with its \<open>str(e)\<close>.\<close>

datatype parse_exn = ParseError string | OtherError string

fun str_exn :: "parse_exn \<Rightarrow> string" where
  "str_exn (ParseError d) = d"
| "str_exn (OtherError m) = m"

text \<open>
  Exceptions inside \<open>build_bundle\<close>: \<open>Raised m\<close> comes out of a library or system call
  with message \<open>m\<close>; \<open>TypeError\<close> and \<open>AttributeError\<close> are raised by the interpreter on a
  configuration value of the wrong type, \<open>RecursionError\<close> when calls nest deeper than
  the recursion limit allows.
\<close>

datatype exn = Raised string | TypeError | AttributeError | RecursionError

text \<open>Lines printed and files touched, in order.\<close>

datatype event =
    ValidFile string nat
  | WarnNotFound string
  | WarnFailed string string
  | Building pyval
  | OutputLine pyval
  | SourcesLine nat
  | EnsuredDir
  | Opened string
  | Wrote string string
  | Created nat
  | Failed exn

text \<open>
  Everything outside the script. Paths are the strings the script holds: \<open>path_exists\<close>
  and \<open>et_parse\<close> are asked about \<open>base_dir / source_file\<close>, \<open>open_write\<close> about
  \<open>output_dir / output_file\<close>, \<open>mkdir\<close> about \<open>output_dir\<close>. \<open>serialize\<close> is what
  \<open>tree.write(..., encoding="UTF-8", xml_declaration=True)\<close> emits for a tree.
  A call that raises gives \<open>Inl\<close> (or \<open>Some\<close>) of the exception's message; \<open>print\<close>
  is taken not to raise. \<open>indent_room\<close> is the room the interpreter's recursion limit
  leaves the recursive \<open>ET.indent\<close>: the number of nested calls it can make beyond the
  two that the bundle's own root and \<open>head\<close> take, for which there is always room.
\<close>

record world =
  load_yaml :: "string \<Rightarrow> string + pyval"
  path_exists :: "string \<Rightarrow> string + bool"
  et_parse :: "string \<Rightarrow> parse_exn + element"
  mkdir :: "string option"
  open_write :: "string \<Rightarrow> string option"
  serialize :: "element \<Rightarrow> string + string"
  indent_room :: nat

section \<open>Element queries\<close>

text \<open>\<open>elem.find(name)\<close> with a plain tag: the first direct child with that tag.\<close>

definition find_child :: "element \<Rightarrow> string \<Rightarrow> element option" where
  "find_child e name = List.find (\<lambda>c. tag c = name) (children e)"

text \<open>Every proper descendant, in document order.\<close>

fun descendants :: "element \<Rightarrow> element list" where
  "descendants (Element t a tx tl' cs) = concat (map (\<lambda>c. c # descendants c) cs)"

definition is_rss_outline :: "element \<Rightarrow> bool" where
  "is_rss_outline e \<longleftrightarrow> tag e = ''outline'' \<and> map_of (attrib e) ''type'' = Some ''rss''"

text \<open>\<open>elem.findall(".//outline[@type='rss']")\<close>.\<close>

definition findall_rss :: "element \<Rightarrow> element list" where
  "findall_rss e = filter is_rss_outline (descendants e)"

section \<open>OPMLValidator\<close>

definition quoted :: "string \<Rightarrow> string" where
  "quoted s = CHR 0x27 # s @ [CHR 0x27]"

text \<open>The \<open>try\<close> block of \<open>validate_opml\<close>.\<close>

definition validate_try :: "world \<Rightarrow> string \<Rightarrow> (parse_exn + bool \<times> string) \<times> event list" where
  "validate_try w file_path =
     (case et_parse w file_path of
        Inl e \<Rightarrow> (Inl e, [])
      | Inr root \<Rightarrow>
          if tag root \<noteq> ''opml'' then
            (Inr (False, ''Root element is '' @ quoted (tag root) @ '', expected '' @ quoted ''opml''), [])
          else
            let head = find_child root ''head''; body = find_child root ''body'' in
            if head = None then (Inr (False, ''Missing required <head> element''), [])
            else if body = None then (Inr (False, ''Missing required <body> element''), [])
            else
              let rss_count = length (findall_rss root) in
              if rss_count = 0 then (Inr (False, ''No RSS feeds found in file''), [])
              else (Inr (True, ''''), [ValidFile file_path rss_count]))"

definition validate_opml :: "world \<Rightarrow> string \<Rightarrow> (bool \<times> string) \<times> event list" where
  "validate_opml w file_path =
     (case validate_try w file_path of
        (Inr r, ev) \<Rightarrow> (r, ev)
      | (Inl (ParseError d), ev) \<Rightarrow> ((False, ''XML parsing error: '' @ d), ev)
      | (Inl e, ev) \<Rightarrow> ((False, ''Unexpected error: '' @ str_exn e), ev))"

section \<open>Operations on configuration values\<close>

text \<open>\<open>config.get(key, default)\<close>: only a mapping has the method.\<close>

definition py_get :: "pyval \<Rightarrow> string \<Rightarrow> pyval \<Rightarrow> exn + pyval" where
  "py_get config key dflt =
     (case config of
        PDict items \<Rightarrow> Inr (case map_of items (PStr key) of Some v \<Rightarrow> v | None \<Rightarrow> dflt)
      | _ \<Rightarrow> Inl AttributeError)"

text \<open>\<open>len(x)\<close>.\<close>

definition py_len :: "pyval \<Rightarrow> exn + nat" where
  "py_len x =
     (case x of
        PStr s \<Rightarrow> Inr (length s)
      | PList xs \<Rightarrow> Inr (length xs)
      | PDict items \<Rightarrow> Inr (length items)
      | _ \<Rightarrow> Inl TypeError)"

text \<open>
  What \<open>for source_file in x\<close> runs over: the items of a list, the characters of a
  string, the keys of a mapping.
\<close>

definition py_iter :: "pyval \<Rightarrow> exn + pyval list" where
  "py_iter x =
     (case x of
        PStr s \<Rightarrow> Inr (map (\<lambda>c. PStr [c]) s)
      | PList xs \<Rightarrow> Inr xs
      | PDict items \<Rightarrow> Inr (map fst items)
      | _ \<Rightarrow> Inl TypeError)"

text \<open>Truth value of an object, as \<open>not x\<close> tests it.\<close>

fun truthy :: "pyval \<Rightarrow> bool" where
  "truthy PNone = False"
| "truthy (PBool b) = b"
| "truthy (PInt i) = (i \<noteq> 0)"
| "truthy (PStr s) = (s \<noteq> [])"
| "truthy (PList xs) = (xs \<noteq> [])"
| "truthy (PDict items) = (items \<noteq> [])"

section \<open>ET.indent\<close>

text \<open>
  \<open>ET.indent(tree, space="    ")\<close> of the standard library, which \<open>build_bundle\<close> runs on
  the merged tree before writing and before counting. A \<open>char\<close> stands for a code
  point below 256; among these \<open>str.strip()\<close> removes the ASCII white space, U+0085
  and U+00A0.
\<close>

definition py_isspace :: "char \<Rightarrow> bool" where
  "py_isspace c \<longleftrightarrow>
     c \<in> set [CHR 0x09, CHR 0x0A, CHR 0x0B, CHR 0x0C, CHR 0x0D,
              CHR 0x1C, CHR 0x1D, CHR 0x1E, CHR 0x1F, CHR 0x20, CHR 0x85, CHR 0xA0]"

text \<open>\<open>not v or not v.strip()\<close>.\<close>

definition is_blank :: "pyval \<Rightarrow> exn + bool" where
  "is_blank v =
     (if \<not> truthy v then Inr True
      else case v of PStr s \<Rightarrow> Inr (list_all py_isspace s) | _ \<Rightarrow> Inl AttributeError)"

definition indentation :: "nat \<Rightarrow> string" where
  "indentation level = CHR 0x0A # concat (replicate level ''    '')"

definition set_tail :: "element \<Rightarrow> pyval \<Rightarrow> element" where
  "set_tail e v = Element (tag e) (attrib e) (elem_text e) v (children e)"

text \<open>
  After the loop: \<open>if not child.tail.strip(): child.tail = indentations[level]\<close> on the
  last child.
\<close>

fun dedent_last :: "element list \<Rightarrow> nat \<Rightarrow> exn + element list" where
  "dedent_last [] level = Inr []"
| "dedent_last [c] level =
     (case elem_tail c of
        PStr s \<Rightarrow> Inr [if list_all py_isspace s then set_tail c (PStr (indentation level)) else c]
      | _ \<Rightarrow> Inl AttributeError)"
| "dedent_last (c # cs) level =
     (case dedent_last cs level of Inl e \<Rightarrow> Inl e | Inr cs' \<Rightarrow> Inr (c # cs'))"

text \<open>
  \<open>_indent_children(elem, level)\<close> and its \<open>for child in elem\<close> loop; \<open>indent_loop\<close>
  is given the level of the element whose children it walks. The call at nesting
  \<open>level\<close> raises \<open>RecursionError\<close> when \<open>level\<close> has used up the two calls always
  available and the \<open>room\<close> beyond them.
\<close>

fun indent_children :: "nat \<Rightarrow> element \<Rightarrow> nat \<Rightarrow> exn + element"
  and indent_loop :: "nat \<Rightarrow> element list \<Rightarrow> nat \<Rightarrow> exn + element list" where
  "indent_children room (Element t a tx tl' cs) level =
     (if 2 + room \<le> level then Inl RecursionError
      else
       (case is_blank tx of
          Inl e \<Rightarrow> Inl e
        | Inr b \<Rightarrow>
            (case indent_loop room cs level of
               Inl e \<Rightarrow> Inl e
             | Inr cs' \<Rightarrow>
                 (case dedent_last cs' level of
                    Inl e \<Rightarrow> Inl e
                  | Inr cs'' \<Rightarrow>
                      Inr (Element t a (if b then PStr (indentation (level + 1)) else tx) tl' cs'')))))"
| "indent_loop room [] level = Inr []"
| "indent_loop room (c # cs) level =
     (case (if children c \<noteq> [] then indent_children room c (level + 1) else Inr c) of
        Inl e \<Rightarrow> Inl e
      | Inr c' \<Rightarrow>
          (case is_blank (elem_tail c') of
             Inl e \<Rightarrow> Inl e
           | Inr b \<Rightarrow>
               (case indent_loop room cs level of
                  Inl e \<Rightarrow> Inl e
                | Inr cs' \<Rightarrow>
                    Inr ((if b then set_tail c' (PStr (indentation (level + 1))) else c') # cs'))))"

definition indent :: "nat \<Rightarrow> element \<Rightarrow> exn + element" where
  "indent room tree = (if children tree = [] then Inr tree else indent_children room tree 0)"

section \<open>BundleBuilder\<close>

definition load_bundle_config :: "world \<Rightarrow> string \<Rightarrow> exn + pyval" where
  "load_bundle_config w config_file =
     (case load_yaml w config_file of Inl m \<Rightarrow> Inl (Raised m) | Inr v \<Rightarrow> Inr v)"

text \<open>
  The \<open>for source_file in source_files\<close> loop of \<open>merge_opml_files\<close>. \<open>body\<close> is the list
  of children appended to the merged body so far, \<open>ev\<close> the lines printed so far.
  \<open>self.base_dir / source_file\<close> stands outside the inner \<open>try\<close>, so a source that is
  not a string ends the loop with a \<open>TypeError\<close>.
\<close>

fun merge_loop ::
  "world \<Rightarrow> pyval list \<Rightarrow> element list \<Rightarrow> event list \<Rightarrow> (exn + element list) \<times> event list" where
  "merge_loop w [] body ev = (Inr body, ev)"
| "merge_loop w (source_file # rest) body ev =
     (case source_file of
        PStr src \<Rightarrow>
          (case path_exists w src of
             Inl m \<Rightarrow> (Inl (Raised m), ev)
           | Inr False \<Rightarrow> merge_loop w rest body (ev @ [WarnNotFound src])
           | Inr True \<Rightarrow>
               (case et_parse w src of
                  Inl e \<Rightarrow> merge_loop w rest body (ev @ [WarnFailed src (str_exn e)])
                | Inr root \<Rightarrow>
                    (case find_child root ''body'' of
                       None \<Rightarrow> merge_loop w rest body ev
                     | Some source_body \<Rightarrow> merge_loop w rest (body @ children source_body) ev)))
      | _ \<Rightarrow> (Inl TypeError, ev))"

definition merge_opml_files ::
  "world \<Rightarrow> pyval \<Rightarrow> pyval \<Rightarrow> pyval \<Rightarrow> (exn + element) \<times> event list" where
  "merge_opml_files w source_files bundle_name bundle_desc =
     (let title = Element ''title'' [] bundle_name PNone [];
          head = Element ''head'' [] PNone PNone [title]
      in case py_iter source_files of
           Inl e \<Rightarrow> (Inl e, [])
         | Inr srcs \<Rightarrow>
             (case merge_loop w srcs [] [] of
                (Inl e, ev) \<Rightarrow> (Inl e, ev)
              | (Inr body, ev) \<Rightarrow>
                  (Inr (Element ''opml'' [(''version'', ''2.0'')] PNone PNone
                          [head, Element ''body'' [] PNone PNone body]), ev)))"

text \<open>
  \<open>tree.write(output_path, ...)\<close>: the file is opened (created or truncated) before the
  tree is serialized into it.
\<close>

definition tree_write :: "world \<Rightarrow> string \<Rightarrow> element \<Rightarrow> exn option \<times> event list" where
  "tree_write w out tree =
     (case open_write w out of
        Some m \<Rightarrow> (Some (Raised m), [])
      | None \<Rightarrow>
          (case serialize w tree of
             Inl m \<Rightarrow> (Some (Raised m), [Opened out])
           | Inr data \<Rightarrow> (None, [Opened out, Wrote out data])))"

text \<open>
  The four \<open>config.get\<close> lines at the head of \<open>build_bundle\<close>: the values of
  \<open>bundle_name\<close>, \<open>bundle_desc\<close>, \<open>output_file\<close> and \<open>source_files\<close>.
\<close>

definition config_fields :: "pyval \<Rightarrow> exn + pyval \<times> pyval \<times> pyval \<times> pyval" where
  "config_fields config =
     (case py_get config ''name'' (PStr ''Unnamed Bundle'') of
        Inl e \<Rightarrow> Inl e
      | Inr bundle_name \<Rightarrow>
     (case py_get config ''description'' (PStr '''') of
        Inl e \<Rightarrow> Inl e
      | Inr bundle_desc \<Rightarrow>
     (case py_get config ''output'' (PStr ''bundle.opml.xml'') of
        Inl e \<Rightarrow> Inl e
      | Inr output_file \<Rightarrow>
     (case py_get config ''sources'' (PList []) of
        Inl e \<Rightarrow> Inl e
      | Inr source_files \<Rightarrow> Inr (bundle_name, bundle_desc, output_file, source_files)))))"

text \<open>The \<open>try\<close> block of \<open>build_bundle\<close>.\<close>

definition build_try :: "world \<Rightarrow> string \<Rightarrow> exn option \<times> event list" where
  "build_try w config_file =
     (case load_bundle_config w config_file of
        Inl e \<Rightarrow> (Some e, [])
      | Inr config \<Rightarrow>
     (case config_fields config of
        Inl e \<Rightarrow> (Some e, [])
      | Inr (bundle_name, bundle_desc, output_file, source_files) \<Rightarrow>
     (let ev1 = [Building bundle_name, OutputLine output_file] in
      case py_len source_files of
        Inl e \<Rightarrow> (Some e, ev1)
      | Inr n \<Rightarrow>
     (let ev2 = ev1 @ [SourcesLine n] in
      case merge_opml_files w source_files bundle_name bundle_desc of
        (Inl e, evm) \<Rightarrow> (Some e, ev2 @ evm)
      | (Inr merged_opml, evm) \<Rightarrow>
     (let ev3 = ev2 @ evm in
      case mkdir w of
        Some m \<Rightarrow> (Some (Raised m), ev3)
      | None \<Rightarrow>
     (let ev4 = ev3 @ [EnsuredDir] in
      case output_file of
        PStr out \<Rightarrow>
          (case indent (indent_room w) merged_opml of
             Inl e \<Rightarrow> (Some e, ev4)
           | Inr tree \<Rightarrow>
               (case tree_write w out tree of
                  (Some e, evw) \<Rightarrow> (Some e, ev4 @ evw)
                | (None, evw) \<Rightarrow>
                    (None, ev4 @ evw @ [Created (length (findall_rss tree))])))
      | _ \<Rightarrow> (Some TypeError, ev4)))))))"

definition build_bundle :: "world \<Rightarrow> string \<Rightarrow> bool \<times> event list" where
  "build_bundle w config_file =
     (case build_try w config_file of
        (None, ev) \<Rightarrow> (True, ev)
      | (Some e, ev) \<Rightarrow> (False, ev @ [Failed e]))"

section \<open>Notions used in the statements\<close>

text \<open>
  The number of \<open>outline\<close> elements with \<open>type="rss"\<close> among an element and its
  descendants.
\<close>

definition feeds_at :: "element \<Rightarrow> nat" where
  "feeds_at e = (if is_rss_outline e then 1 else 0) + length (findall_rss e)"

text \<open>A tree as the parser builds it: every text and tail is \<open>None\<close> or a string.\<close>

fun str_or_none :: "pyval \<Rightarrow> bool" where
  "str_or_none PNone = True"
| "str_or_none (PStr s) = True"
| "str_or_none v = False"

fun str_typed :: "element \<Rightarrow> bool" where
  "str_typed (Element t a tx tl' cs) \<longleftrightarrow>
     str_or_none tx \<and> str_or_none tl' \<and> (\<forall>c \<in> set cs. str_typed c)"

section \<open>Example documents\<close>

definition feed :: "string \<Rightarrow> element" where
  "feed url = Element ''outline'' [(''type'', ''rss''), (''xmlUrl'', url)] PNone PNone []"

definition doc_headless :: element where
  "doc_headless = Element ''opml'' [(''version'', ''2.0'')] PNone PNone []"

definition doc_no_body :: element where
  "doc_no_body = Element ''opml'' [(''version'', ''2.0'')] PNone PNone
     [Element ''head'' [] PNone PNone [Element ''title'' [] (PStr ''A'') PNone []]]"

definition doc_feed_in_head :: element where
  "doc_feed_in_head = Element ''opml'' [(''version'', ''2.0'')] PNone PNone
     [Element ''head'' [] PNone PNone [feed ''u0''],
      Element ''body'' [] PNone PNone [feed ''u1'']]"

definition validator_world :: world where
  "validator_world = \<lparr>
     load_yaml = (\<lambda>p. Inl ''No such file or directory''),
     path_exists = (\<lambda>p. Inr (p \<in> set [''headless.opml.xml'', ''nobody.opml.xml'',
                                       ''odd.opml.xml'', ''bad.opml.xml''])),
     et_parse = (\<lambda>p.
        if p = ''headless.opml.xml'' then Inr doc_headless
        else if p = ''nobody.opml.xml'' then Inr doc_no_body
        else if p = ''odd.opml.xml'' then Inr doc_feed_in_head
        else if p = ''bad.opml.xml'' then Inl (ParseError ''mismatched tag: line 3, column 2'')
        else Inl (OtherError ''No such file or directory'')),
     mkdir = None, open_write = (\<lambda>p. None), serialize = (\<lambda>t. Inr ''<opml />''),
     indent_room = 990 \<rparr>"

section \<open>What a source contributes\<close>

text \<open>
  A source is loaded when its path exists, the parser returns a tree and the root has a
  \<open>body\<close> child. Its entries are the direct children of that \<open>body\<close>.
\<close>

definition source_entries :: "world \<Rightarrow> string \<Rightarrow> element list" where
  "source_entries w src =
     (case path_exists w src of
        Inr True \<Rightarrow>
          (case et_parse w src of
             Inr root \<Rightarrow> (case find_child root ''body'' of Some b \<Rightarrow> children b | None \<Rightarrow> [])
           | Inl e \<Rightarrow> [])
      | _ \<Rightarrow> [])"

text \<open>Its feed entries \<open>k\<close>: the rss outlines under that \<open>body\<close>; 0 when it is not loaded.\<close>

definition feeds_of_source :: "world \<Rightarrow> string \<Rightarrow> nat" where
  "feeds_of_source w src =
     (case path_exists w src of
        Inr True \<Rightarrow>
          (case et_parse w src of
             Inr root \<Rightarrow>
               (case find_child root ''body'' of Some b \<Rightarrow> length (findall_rss b) | None \<Rightarrow> 0)
           | Inl e \<Rightarrow> 0)
      | _ \<Rightarrow> 0)"

text \<open>The warning a source draws: one when it is missing, one when parsing it raises.\<close>

definition source_warnings :: "world \<Rightarrow> string \<Rightarrow> event list" where
  "source_warnings w src =
     (case path_exists w src of
        Inr False \<Rightarrow> [WarnNotFound src]
      | Inr True \<Rightarrow> (case et_parse w src of Inl e \<Rightarrow> [WarnFailed src (str_exn e)] | Inr root \<Rightarrow> [])
      | Inl m \<Rightarrow> [])"

text \<open>The bundle output: title and entries in the fixed frame.\<close>

definition merged_document :: "pyval \<Rightarrow> element list \<Rightarrow> element" where
  "merged_document title_text entries =
     Element ''opml'' [(''version'', ''2.0'')] PNone PNone
       [Element ''head'' [] PNone PNone [Element ''title'' [] title_text PNone []],
        Element ''body'' [] PNone PNone entries]"

text \<open>The bundle output without entries, as it is written (indented by four spaces).\<close>

definition empty_bundle_document :: "pyval \<Rightarrow> element" where
  "empty_bundle_document title_text =
     Element ''opml'' [(''version'', ''2.0'')] (PStr (CHR 0x0A # ''    '')) PNone
       [Element ''head'' [] (PStr (CHR 0x0A # ''        '')) (PStr (CHR 0x0A # ''    ''))
          [Element ''title'' [] title_text (PStr (CHR 0x0A # ''    '')) []],
        Element ''body'' [] PNone (PStr [CHR 0x0A]) []]"

section \<open>An example repository\<close>

definition doc_a :: element where
  "doc_a = Element ''opml'' [(''version'', ''2.0'')] PNone PNone
     [Element ''head'' [] PNone PNone [Element ''title'' [] (PStr ''A'') PNone []],
      Element ''body'' [] PNone PNone
        [Element ''outline'' [(''text'', ''News'')] PNone PNone [feed ''u1'', feed ''u2''],
         feed ''u3'']]"

definition doc_b :: element where
  "doc_b = Element ''opml'' [(''version'', ''2.0'')] PNone PNone
     [Element ''head'' [] PNone PNone [Element ''title'' [] (PStr ''B'') PNone []],
      Element ''body'' [] PNone PNone [feed ''u4'', feed ''u5'']]"

text \<open>A stand-in serializer for the examples: tags and text, no attributes.\<close>

fun render_text :: "pyval \<Rightarrow> string" where
  "render_text (PStr s) = s"
| "render_text v = []"

fun render :: "element \<Rightarrow> string" where
  "render (Element t a tx tl' cs) =
     ''<'' @ t @ ''>'' @ render_text tx @ concat (map render cs) @ ''</'' @ t @ ''>'' @ render_text tl'"

definition tech_items :: "(pyval \<times> pyval) list" where
  "tech_items =
     [(PStr ''name'', PStr ''Tech''), (PStr ''output'', PStr ''tech.opml.xml''),
      (PStr ''sources'', PList (map PStr [''a.opml.xml'', ''missing.opml.xml'',
                                          ''bad.opml.xml'', ''b.opml.xml'']))]"

definition ghost_items :: "(pyval \<times> pyval) list" where
  "ghost_items =
     [(PStr ''name'', PStr ''Ghost''), (PStr ''output'', PStr ''ghost.opml.xml''),
      (PStr ''sources'', PList (map PStr [''x.opml.xml'', ''y.opml.xml'']))]"

definition tech_world :: world where
  "tech_world = \<lparr>
     load_yaml = (\<lambda>p.
        if p = ''tech.yaml'' then Inr (PDict tech_items)
        else if p = ''tech_described.yaml'' then
          Inr (PDict ((PStr ''description'', PStr ''Technology feeds'') # tech_items))
        else if p = ''ghost.yaml'' then Inr (PDict ghost_items)
        else if p = ''bare.yaml'' then Inr (PDict [])
        else if p = ''empty.yaml'' then Inr PNone
        else Inl ''No such file or directory''),
     path_exists = (\<lambda>p. Inr (p \<in> set [''a.opml.xml'', ''b.opml.xml'', ''bad.opml.xml''])),
     et_parse = (\<lambda>p.
        if p = ''a.opml.xml'' then Inr doc_a
        else if p = ''b.opml.xml'' then Inr doc_b
        else if p = ''bad.opml.xml'' then Inl (ParseError ''mismatched tag: line 3, column 2'')
        else Inl (OtherError ''No such file or directory'')),
     mkdir = None,
     open_write = (\<lambda>p. None),
     serialize = (\<lambda>t. Inr (render t)),
     indent_room = 990 \<rparr>"

text \<open>How deep the children of an element nest; 0 for an element without children.\<close>

fun height :: "element \<Rightarrow> nat" where
  "height (Element t a tx tl' cs) = fold max (map (\<lambda>c. Suc (height c)) cs) 0"

text \<open>
  A repository in which one listed source cannot be tested for existence: its directory
  may not be searched, so \<open>Path.exists\<close> raises.
\<close>

definition locked_items :: "(pyval \<times> pyval) list" where
  "locked_items =
     [(PStr ''name'', PStr ''Locked''), (PStr ''output'', PStr ''locked.opml.xml''),
      (PStr ''sources'', PList (map PStr [''a.opml.xml'', ''private/feeds.opml.xml'',
                                          ''b.opml.xml'']))]"

definition locked_world :: world where
  "locked_world = tech_world \<lparr>
     load_yaml := (\<lambda>p. if p = ''locked.yaml'' then Inr (PDict locked_items)
                        else load_yaml tech_world p),
     path_exists := (\<lambda>p. if p = ''private/feeds.opml.xml''
                          then Inl ''[Errno 13] Permission denied''
                          else path_exists tech_world p) \<rparr>"

section \<open>Facts about the element queries\<close>

lemma find_child_in_children: "find_child e name = Some c \<Longrightarrow> c \<in> set (children e)"
  by (auto simp: find_child_def find_Some_iff)

section \<open>The validator\<close>

lemma feeds_member_le:
  "c \<in> set cs \<Longrightarrow>
   length (filter P (descendants c)) \<le> length (filter P (concat (map (\<lambda>c. c # descendants c) cs)))"
  by (induction cs) auto

lemma child_feeds_le:
  "c \<in> set (children e) \<Longrightarrow> length (findall_rss c) \<le> length (findall_rss e)"
  by (cases e) (simp add: findall_rss_def feeds_member_le)

text \<open>
  C4 (amended). A document with root \<open>opml\<close> and no \<open>body\<close> child is rejected. The reason
  is the missing \<open>body\<close> when a \<open>head\<close> child is present; the \<open>head\<close> check comes
  first, so without a \<open>head\<close> the reason is the missing \<open>head\<close>.
\<close>

theorem validate_opml_missing_body:
  assumes "et_parse w p = Inr D" and "tag D = ''opml''" and "find_child D ''body'' = None"
  shows "validate_opml w p =
           ((False, if find_child D ''head'' = None then ''Missing required <head> element''
                    else ''Missing required <body> element''), [])"
  using assms by (simp add: validate_opml_def validate_try_def Let_def)

theorem validate_opml_missing_body_witness:
  "validate_opml validator_world ''nobody.opml.xml'' = ((False, ''Missing required <body> element''), [])"
  using validate_opml_missing_body [of validator_world "''nobody.opml.xml''" doc_no_body]
  by (simp add: validator_world_def doc_no_body_def find_child_def)

text \<open>
  C4 as stated fails on a document with neither \<open>head\<close> nor \<open>body\<close>: the reason given
  is the missing \<open>head\<close>.
\<close>

theorem validate_opml_headless_counterexample:
  "tag doc_headless = ''opml'' \<and> find_child doc_headless ''body'' = None \<and>
   et_parse validator_world ''headless.opml.xml'' = Inr doc_headless \<and>
   fst (validate_opml validator_world ''headless.opml.xml'') = (False, ''Missing required <head> element'') \<and>
   fst (validate_opml validator_world ''headless.opml.xml'') \<noteq> (False, ''Missing required <body> element'')"
  by (simp add: validate_opml_def validate_try_def validator_world_def doc_headless_def find_child_def)

text \<open>
  C3 (amended). A document with root \<open>opml\<close>, a \<open>head\<close>, a \<open>body\<close> and at least one rss
  outline below the root is accepted with an empty reason, and the count reported is the
  number of rss outlines at any depth below the root, which is at least the number below
  the \<open>body\<close>.
\<close>

theorem validate_opml_valid:
  assumes "et_parse w p = Inr D" and "tag D = ''opml''"
    and "find_child D ''head'' = Some h" and "find_child D ''body'' = Some b"
    and "findall_rss D \<noteq> []"
  shows "validate_opml w p = ((True, ''''), [ValidFile p (length (findall_rss D))]) \<and>
         length (findall_rss b) \<le> length (findall_rss D)"
proof -
  have "b \<in> set (children D)" using assms(4) by (rule find_child_in_children)
  then have "length (findall_rss b) \<le> length (findall_rss D)"
    by (rule child_feeds_le)
  moreover have "validate_opml w p = ((True, ''''), [ValidFile p (length (findall_rss D))])"
    using assms by (simp add: validate_opml_def validate_try_def Let_def)
  ultimately show ?thesis by simp
qed

theorem validate_opml_valid_witness:
  "validate_opml validator_world ''odd.opml.xml'' = ((True, ''''), [ValidFile ''odd.opml.xml'' 2])"
  using validate_opml_valid [of validator_world "''odd.opml.xml''" doc_feed_in_head
      "Element ''head'' [] PNone PNone [feed ''u0'']" "Element ''body'' [] PNone PNone [feed ''u1'']"]
  by (simp add: validator_world_def doc_feed_in_head_def find_child_def findall_rss_def
      is_rss_outline_def feed_def)

text \<open>
  C3 as stated fails on a document with one rss outline under \<open>head\<close> and one under
  \<open>body\<close>: the count reported is 2, the count under \<open>body\<close> is 1.
\<close>

theorem validate_opml_count_counterexample:
  "et_parse validator_world ''odd.opml.xml'' = Inr doc_feed_in_head \<and>
   tag doc_feed_in_head = ''opml'' \<and>
   find_child doc_feed_in_head ''head'' = Some (Element ''head'' [] PNone PNone [feed ''u0'']) \<and>
   find_child doc_feed_in_head ''body'' = Some (Element ''body'' [] PNone PNone [feed ''u1'']) \<and>
   length (findall_rss (Element ''body'' [] PNone PNone [feed ''u1''])) = 1 \<and>
   validate_opml validator_world ''odd.opml.xml'' = ((True, ''''), [ValidFile ''odd.opml.xml'' 2])"
  by (simp add: validate_opml_def validate_try_def validator_world_def doc_feed_in_head_def
      find_child_def findall_rss_def is_rss_outline_def feed_def)

text \<open>
  C9. Whenever parsing the file raises, \<open>validate_opml\<close> returns a pair instead of
  letting the exception pass: for a parse error the pair is false with the reason
  \<open>XML parsing error: \<close> followed by the diagnostic, for any other exception false with
  the reason \<open>Unexpected error: \<close> followed by its message; nothing is printed.
\<close>

theorem validate_opml_catches:
  "(et_parse w p = Inl (ParseError d) \<longrightarrow>
      validate_opml w p = ((False, ''XML parsing error: '' @ d), [])) \<and>
   (et_parse w p = Inl (OtherError m) \<longrightarrow>
      validate_opml w p = ((False, ''Unexpected error: '' @ m), []))"
  by (simp add: validate_opml_def validate_try_def)

theorem validate_opml_catches_witness:
  "validate_opml validator_world ''bad.opml.xml'' =
     ((False, ''XML parsing error: mismatched tag: line 3, column 2''), []) \<and>
   validate_opml validator_world ''gone.opml.xml'' =
     ((False, ''Unexpected error: No such file or directory''), [])"
  using validate_opml_catches [of validator_world "''bad.opml.xml''"
          "''mismatched tag: line 3, column 2''" "''No such file or directory''"]
        validate_opml_catches [of validator_world "''gone.opml.xml''"
          "''mismatched tag: line 3, column 2''" "''No such file or directory''"]
  by (simp add: validator_world_def)

section \<open>Counting feeds; indentation keeps the count\<close>

lemma findall_rss_length: "length (findall_rss e) = sum_list (map feeds_at (children e))"
proof (cases e)
  case (Element t a tx tl' cs)
  have "length (filter is_rss_outline (concat (map (\<lambda>c. c # descendants c) cs))) =
        sum_list (map feeds_at cs)"
    by (induction cs) (simp_all add: feeds_at_def findall_rss_def)
  with Element show ?thesis by (simp add: findall_rss_def)
qed

lemma feeds_at_Element:
  "feeds_at (Element t a tx tl' cs) =
     (if t = ''outline'' \<and> map_of a ''type'' = Some ''rss'' then 1 else 0) + sum_list (map feeds_at cs)"
  by (simp add: feeds_at_def findall_rss_length is_rss_outline_def)

lemma feeds_at_set_tail: "feeds_at (set_tail c v) = feeds_at c"
  by (cases c) (simp add: set_tail_def feeds_at_Element)

lemma dedent_last_feeds:
  "dedent_last cs level = Inr cs' \<Longrightarrow> map feeds_at cs' = map feeds_at cs"
proof (induction cs level arbitrary: cs' rule: dedent_last.induct)
  case (1 level)
  then show ?case by simp
next
  case (2 c level)
  then show ?case by (auto simp: feeds_at_set_tail split: pyval.splits if_splits)
next
  case (3 c v va level)
  then show ?case by (auto split: sum.splits)
qed

lemma indent_children_Inr:
  assumes "indent_children room (Element t a tx tl' cs) level = Inr e'"
  obtains b cs1 cs2 where "\<not> 2 + room \<le> level" and "is_blank tx = Inr b"
    and "indent_loop room cs level = Inr cs1"
    and "dedent_last cs1 level = Inr cs2"
    and "e' = Element t a (if b then PStr (indentation (level + 1)) else tx) tl' cs2"
  using assms by (simp split: sum.splits if_splits)

lemma indent_loop_Cons_Inr:
  assumes "indent_loop room (c # cs) level = Inr r"
  obtains c1 b cs1 where
    "(if children c \<noteq> [] then indent_children room c (level + 1) else Inr c) = Inr c1"
    and "is_blank (elem_tail c1) = Inr b" and "indent_loop room cs level = Inr cs1"
    and "r = (if b then set_tail c1 (PStr (indentation (level + 1))) else c1) # cs1"
  using assms by (simp split: sum.splits)

lemma indent_feeds:
  "indent_children room e level = Inr e' \<Longrightarrow> feeds_at e' = feeds_at e"
  "indent_loop room' cs level' = Inr cs' \<Longrightarrow> map feeds_at cs' = map feeds_at cs"
proof (induction room e level and room' cs level' arbitrary: e' and cs'
    rule: indent_children_indent_loop.induct)
  case (1 room t a tx tl' cs level)
  from "1.prems" obtain b cs1 cs2 where n: "\<not> 2 + room \<le> level" and b: "is_blank tx = Inr b"
    and l: "indent_loop room cs level = Inr cs1" and d: "dedent_last cs1 level = Inr cs2"
    and e': "e' = Element t a (if b then PStr (indentation (level + 1)) else tx) tl' cs2"
    by (rule indent_children_Inr)
  have "map feeds_at cs1 = map feeds_at cs" using n b l by (rule "1.IH")
  moreover have "map feeds_at cs2 = map feeds_at cs1" using d by (rule dedent_last_feeds)
  ultimately show ?case by (simp add: e' feeds_at_Element)
next
  case (2 room level)
  then show ?case by simp
next
  case (3 room c cs level)
  from "3.prems" obtain c1 b cs1 where
    c1: "(if children c \<noteq> [] then indent_children room c (level + 1) else Inr c) = Inr c1"
    and b: "is_blank (elem_tail c1) = Inr b" and l: "indent_loop room cs level = Inr cs1"
    and r: "cs' = (if b then set_tail c1 (PStr (indentation (level + 1))) else c1) # cs1"
    by (rule indent_loop_Cons_Inr)
  have "feeds_at c1 = feeds_at c"
  proof (cases "children c = []")
    case True
    with c1 show ?thesis by simp
  next
    case False
    with c1 have "indent_children room c (level + 1) = Inr c1" by simp
    with False show ?thesis by (rule "3.IH"(1))
  qed
  moreover have "map feeds_at cs1 = map feeds_at cs" using c1 b l by (rule "3.IH"(2))
  ultimately show ?case by (simp add: r feeds_at_set_tail)
qed

lemma indent_children_same:
  assumes "indent_children room e level = Inr e'"
  shows "tag e' = tag e \<and> attrib e' = attrib e \<and> elem_tail e' = elem_tail e"
proof (cases e)
  case (Element t a tx tl' cs)
  from assms [unfolded Element] obtain b cs1 cs2 where
    "e' = Element t a (if b then PStr (indentation (level + 1)) else tx) tl' cs2"
    by (rule indent_children_Inr)
  with Element show ?thesis by simp
qed

lemma indent_count:
  assumes "indent room t = Inr t'"
  shows "length (findall_rss t') = length (findall_rss t)"
proof (cases "children t = []")
  case True
  with assms show ?thesis by (simp add: indent_def)
next
  case False
  with assms have ic: "indent_children room t 0 = Inr t'" by (simp add: indent_def)
  then have "feeds_at t' = feeds_at t" by (rule indent_feeds(1))
  moreover have "is_rss_outline t' = is_rss_outline t"
    using indent_children_same [OF ic] by (simp add: is_rss_outline_def)
  ultimately show ?thesis by (simp add: feeds_at_def)
qed

section \<open>Indentation of a parsed tree within the recursion room does not raise\<close>

lemma fold_max_ge: "(a::nat) \<le> fold max xs a"
proof (induction xs arbitrary: a)
  case Nil
  then show ?case by simp
next
  case (Cons x xs)
  have "a \<le> max x a" by simp
  also have "max x a \<le> fold max xs (max x a)" by (rule Cons.IH)
  finally show ?case by simp
qed

lemma fold_max_member: "x \<in> set xs \<Longrightarrow> (x::nat) \<le> fold max xs a"
proof (induction xs arbitrary: a)
  case Nil
  then show ?case by simp
next
  case (Cons y ys)
  show ?case
  proof (cases "x = y")
    case True
    have "x \<le> max y a" using True by simp
    also have "max y a \<le> fold max ys (max y a)" by (rule fold_max_ge)
    finally show ?thesis by simp
  next
    case False
    with Cons.prems have "x \<in> set ys" by simp
    then have "x \<le> fold max ys (max y a)" by (rule Cons.IH)
    then show ?thesis by simp
  qed
qed

lemma height_child: "c \<in> set (children e) \<Longrightarrow> Suc (height c) \<le> height e"
  by (cases e) (simp add: fold_max_member)

lemma is_blank_typed:
  assumes "str_or_none v"
  shows "\<exists>b. is_blank v = Inr b \<and> (b \<or> (\<exists>s. v = PStr s))"
  using assms by (cases v) (auto simp: is_blank_def)

lemma str_typed_tail: "str_typed c \<Longrightarrow> str_or_none (elem_tail c)"
  by (cases c) simp

lemma str_typed_set_tail: "str_typed c \<Longrightarrow> str_typed (set_tail c (PStr x))"
  by (cases c) (simp add: set_tail_def)

lemma elem_tail_set_tail: "elem_tail (set_tail c v) = v"
  by (simp add: set_tail_def)

lemma dedent_last_typed:
  assumes "\<forall>c \<in> set cs. str_typed c \<and> (\<exists>s. elem_tail c = PStr s)"
  shows "\<exists>cs'. dedent_last cs level = Inr cs' \<and> (\<forall>c \<in> set cs'. str_typed c)"
  using assms
proof (induction cs level rule: dedent_last.induct)
  case (1 level)
  then show ?case by simp
next
  case (2 c level)
  then obtain s where "elem_tail c = PStr s" and "str_typed c" by auto
  then show ?case by (simp add: str_typed_set_tail)
next
  case (3 c v va level)
  then obtain cs' where "dedent_last (v # va) level = Inr cs'" and "\<forall>c \<in> set cs'. str_typed c"
    by auto
  with "3.prems" show ?case by simp
qed

lemma indent_typed:
  "str_typed e \<Longrightarrow> children e \<noteq> [] \<Longrightarrow> level + height e \<le> 2 + room \<Longrightarrow>
     \<exists>e'. indent_children room e level = Inr e' \<and> str_typed e'"
  "\<forall>c \<in> set cs. str_typed c \<and> level' + Suc (height c) \<le> 2 + room' \<Longrightarrow>
     \<exists>cs'. indent_loop room' cs level' = Inr cs' \<and>
           (\<forall>c \<in> set cs'. str_typed c \<and> (\<exists>s. elem_tail c = PStr s))"
proof (induction room e level and room' cs level' rule: indent_children_indent_loop.induct)
  case (1 room t a tx tl' cs level)
  from "1.prems"(1) have tx: "str_or_none tx" and tl: "str_or_none tl'"
    and cs: "\<forall>c \<in> set cs. str_typed c" by simp_all
  from "1.prems"(2) have ne: "cs \<noteq> []" by simp
  then obtain c0 where "c0 \<in> set cs" by (cases cs) auto
  then have "Suc (height c0) \<le> height (Element t a tx tl' cs)"
    using height_child [of c0 "Element t a tx tl' cs"] by simp
  with "1.prems"(3) have n: "\<not> 2 + room \<le> level" by simp
  have bound: "\<forall>c \<in> set cs. str_typed c \<and> level + Suc (height c) \<le> 2 + room"
  proof
    fix c
    assume c: "c \<in> set cs"
    then have "Suc (height c) \<le> height (Element t a tx tl' cs)"
      using height_child [of c "Element t a tx tl' cs"] by simp
    with "1.prems"(3) cs c show "str_typed c \<and> level + Suc (height c) \<le> 2 + room" by simp
  qed
  from is_blank_typed [OF tx] obtain b where b: "is_blank tx = Inr b" by blast
  from "1.IH" [OF n b bound] obtain cs1 where l: "indent_loop room cs level = Inr cs1"
    and cs1: "\<forall>c \<in> set cs1. str_typed c \<and> (\<exists>s. elem_tail c = PStr s)" by blast
  from dedent_last_typed [OF cs1] obtain cs2 where d: "dedent_last cs1 level = Inr cs2"
    and cs2: "\<forall>c \<in> set cs2. str_typed c" by blast
  from n b l d tx tl cs2 show ?case by simp
next
  case (2 room level)
  then show ?case by simp
next
  case (3 room c cs level)
  from "3.prems" have c: "str_typed c" and hc: "level + Suc (height c) \<le> 2 + room"
    and cs: "\<forall>c \<in> set cs. str_typed c \<and> level + Suc (height c) \<le> 2 + room" by simp_all
  have "\<exists>c1. (if children c \<noteq> [] then indent_children room c (level + 1) else Inr c) = Inr c1 \<and>
          str_typed c1 \<and> elem_tail c1 = elem_tail c"
  proof (cases "children c = []")
    case True
    with c show ?thesis by simp
  next
    case False
    from hc have "level + 1 + height c \<le> 2 + room" by simp
    from "3.IH"(1) [OF False c False this] obtain c1 where
      "indent_children room c (level + 1) = Inr c1" and "str_typed c1" by blast
    with False indent_children_same [of room c "level + 1" c1] show ?thesis by simp
  qed
  then obtain c1 where
    c1: "(if children c \<noteq> [] then indent_children room c (level + 1) else Inr c) = Inr c1"
    and t1: "str_typed c1" and tl1: "elem_tail c1 = elem_tail c" by blast
  from t1 have "str_or_none (elem_tail c1)" by (rule str_typed_tail)
  from is_blank_typed [OF this] obtain b where b: "is_blank (elem_tail c1) = Inr b"
    and nb: "b \<or> (\<exists>s. elem_tail c1 = PStr s)" by blast
  from "3.IH"(2) [OF c1 b cs] obtain cs1 where l: "indent_loop room cs level = Inr cs1"
    and cs1: "\<forall>c \<in> set cs1. str_typed c \<and> (\<exists>s. elem_tail c = PStr s)" by blast
  let ?c2 = "if b then set_tail c1 (PStr (indentation (level + 1))) else c1"
  have "str_typed ?c2" using t1 by (simp add: str_typed_set_tail)
  moreover have "\<exists>s. elem_tail ?c2 = PStr s" using nb by (auto simp: elem_tail_set_tail)
  moreover have "indent_loop room (c # cs) level = Inr (?c2 # cs1)" using c1 b l by simp
  ultimately show ?case using cs1 by simp
qed

lemma indent_str_typed:
  assumes "str_typed t" and "height t \<le> 2 + room"
  shows "\<exists>t'. indent room t = Inr t' \<and> str_typed t'"
proof (cases "children t = []")
  case True
  with assms(1) show ?thesis by (simp add: indent_def)
next
  case False
  from assms(2) have "0 + height t \<le> 2 + room" by simp
  from indent_typed(1) [OF assms(1) False this] False show ?thesis by (simp add: indent_def)
qed

section \<open>The merge\<close>

lemma merge_loop_strings:
  assumes "\<forall>s \<in> set srcs. \<exists>b. path_exists w s = Inr b"
  shows "merge_loop w (map PStr srcs) body ev =
           (Inr (body @ concat (map (source_entries w) srcs)),
            ev @ concat (map (source_warnings w) srcs))"
  using assms
proof (induction srcs arbitrary: body ev)
  case Nil
  then show ?case by simp
next
  case (Cons s srcs)
  from Cons.prems obtain b where b: "path_exists w s = Inr b" by auto
  from Cons.prems have rest: "\<forall>s \<in> set srcs. \<exists>b. path_exists w s = Inr b" by simp
  note IH = Cons.IH [OF rest]
  show ?case
  proof (cases b)
    case False
    with b show ?thesis by (simp add: IH source_entries_def source_warnings_def)
  next
    case True
    show ?thesis
    proof (cases "et_parse w s")
      case (Inl e)
      with b True show ?thesis by (simp add: IH source_entries_def source_warnings_def)
    next
      case (Inr root)
      with b True show ?thesis
        by (cases "find_child root ''body''")
          (simp_all add: IH source_entries_def source_warnings_def)
    qed
  qed
qed

lemma merge_opml_files_strings:
  assumes "\<forall>s \<in> set srcs. \<exists>b. path_exists w s = Inr b"
  shows "merge_opml_files w (PList (map PStr srcs)) bundle_name bundle_desc =
           (Inr (merged_document bundle_name (concat (map (source_entries w) srcs))),
            concat (map (source_warnings w) srcs))"
  by (simp add: merge_opml_files_def py_iter_def merge_loop_strings [OF assms]
      merged_document_def)
lemma feeds_of_source_entries:
  "sum_list (map feeds_at (source_entries w s)) = feeds_of_source w s"
  by (simp add: source_entries_def feeds_of_source_def findall_rss_length
      split: sum.splits bool.splits option.splits)

lemma feeds_of_entries:
  "sum_list (map feeds_at (concat (map (source_entries w) srcs))) =
   sum_list (map (feeds_of_source w) srcs)"
  by (induction srcs) (simp_all add: feeds_of_source_entries)

lemma merged_document_count:
  "length (findall_rss (merged_document n es)) = sum_list (map feeds_at es)"
  by (simp add: merged_document_def findall_rss_length feeds_at_Element)

lemma str_typed_child: "str_typed e \<Longrightarrow> c \<in> set (children e) \<Longrightarrow> str_typed c"
  by (cases e) simp

lemma source_entries_cases:
  assumes "e \<in> set (source_entries w s)"
  shows "\<exists>root b. et_parse w s = Inr root \<and> find_child root ''body'' = Some b \<and>
                  e \<in> set (children b)"
proof (cases "et_parse w s")
  case (Inl x)
  with assms show ?thesis by (simp add: source_entries_def split: sum.splits bool.splits)
next
  case (Inr root)
  show ?thesis
  proof (cases "find_child root ''body''")
    case None
    with Inr assms show ?thesis by (simp add: source_entries_def split: sum.splits bool.splits)
  next
    case (Some b)
    with Inr assms show ?thesis by (auto simp: source_entries_def split: sum.splits bool.splits)
  qed
qed

lemma source_entries_typed:
  assumes "\<forall>t. et_parse w s = Inr t \<longrightarrow> str_typed t" and "e \<in> set (source_entries w s)"
  shows "str_typed e"
proof -
  from source_entries_cases [OF assms(2)] obtain root b where "et_parse w s = Inr root"
    and b: "find_child root ''body'' = Some b" and e: "e \<in> set (children b)"
    by blast
  with assms(1) have "str_typed root" by simp
  moreover from b have "b \<in> set (children root)" by (rule find_child_in_children)
  ultimately have "str_typed b" by (rule str_typed_child)
  then show ?thesis using e by (rule str_typed_child)
qed

lemma merged_document_typed:
  assumes "\<forall>e \<in> set es. str_typed e"
  shows "str_typed (merged_document (PStr n) es)"
  using assms by (simp add: merged_document_def)

lemma py_get_dict:
  "py_get (PDict items) key dflt =
     Inr (case map_of items (PStr key) of Some v \<Rightarrow> v | None \<Rightarrow> dflt)"
  by (simp add: py_get_def)

text \<open>The run of \<open>build_bundle\<close> in which no step raises.\<close>

lemma build_bundle_success:
  assumes "load_yaml w c = Inr (PDict items)"
    and "py_get (PDict items) ''name'' (PStr ''Unnamed Bundle'') = Inr bundle_name"
    and "py_get (PDict items) ''output'' (PStr ''bundle.opml.xml'') = Inr (PStr out)"
    and "py_get (PDict items) ''sources'' (PList []) = Inr source_files"
    and "py_len source_files = Inr n"
    and "\<And>d. merge_opml_files w source_files bundle_name d = (Inr merged, evm)"
    and "mkdir w = None" and "indent (indent_room w) merged = Inr tree"
    and "open_write w out = None" and "serialize w tree = Inr data"
  shows "build_bundle w c =
           (True, [Building bundle_name, OutputLine (PStr out), SourcesLine n] @ evm @
                  [EnsuredDir, Opened out, Wrote out data, Created (length (findall_rss tree))])"
  using assms
  by (simp add: build_bundle_def build_try_def load_bundle_config_def config_fields_def
      tree_write_def py_get_dict)

section \<open>Merging and building\<close>

text \<open>
  C2. When every listed source is a path whose existence test returns, the merge returns
  a document whose \<open>body\<close> has as children the direct children of the \<open>body\<close> of each
  loaded source, in the order of the source list and, within a source, in document
  order; each child is the source's subtree, unchanged.
\<close>

theorem merge_opml_files_order:
  assumes "\<forall>s \<in> set srcs. \<exists>b. path_exists w s = Inr b"
  shows "\<exists>doc body.
           fst (merge_opml_files w (PList (map PStr srcs)) bundle_name bundle_desc) = Inr doc \<and>
           find_child doc ''body'' = Some body \<and>
           children body = concat (map (source_entries w) srcs)"
  by (simp add: merge_opml_files_strings [OF assms] merged_document_def find_child_def)

theorem merge_opml_files_order_witness:
  "\<exists>doc body.
     fst (merge_opml_files tech_world
            (PList (map PStr [''a.opml.xml'', ''missing.opml.xml'', ''bad.opml.xml'', ''b.opml.xml'']))
            (PStr ''Tech'') (PStr '''')) = Inr doc \<and>
     find_child doc ''body'' = Some body \<and>
     children body =
       [Element ''outline'' [(''text'', ''News'')] PNone PNone [feed ''u1'', feed ''u2''],
        feed ''u3'', feed ''u4'', feed ''u5'']"
  using merge_opml_files_order [of "[''a.opml.xml'', ''missing.opml.xml'', ''bad.opml.xml'', ''b.opml.xml'']"
      tech_world "PStr ''Tech''" "PStr ''''"]
  by (simp add: tech_world_def source_entries_def doc_a_def doc_b_def find_child_def)

text \<open>
  C10. When the configuration file deserializes to anything but a mapping, the first
  \<open>config.get\<close> raises: \<open>build_bundle\<close> returns false, having only printed the failure;
  no directory is made and no file is opened or written.
\<close>

theorem build_bundle_not_a_mapping:
  assumes "load_yaml w c = Inr v" and "\<forall>items. v \<noteq> PDict items"
  shows "build_bundle w c = (False, [Failed AttributeError])"
  using assms
  by (cases v)
    (simp_all add: build_bundle_def build_try_def load_bundle_config_def config_fields_def
      py_get_def)

theorem build_bundle_not_a_mapping_witness:
  "build_bundle tech_world ''empty.yaml'' = (False, [Failed AttributeError])"
  using build_bundle_not_a_mapping [of tech_world "''empty.yaml''" PNone]
  by (simp add: tech_world_def)


lemma indent_empty_bundle:
  "indent room (merged_document title_text []) = Inr (empty_bundle_document title_text)"
  by (simp add: indent_def merged_document_def empty_bundle_document_def is_blank_def
      indentation_def set_tail_def py_isspace_def)



lemma fold_max_le: "(a::nat) \<le> b \<Longrightarrow> \<forall>x \<in> set xs. x \<le> b \<Longrightarrow> fold max xs a \<le> b"
  by (induction xs arbitrary: a) simp_all

lemma source_entries_height:
  assumes "\<forall>t. et_parse w s = Inr t \<longrightarrow> height t \<le> 2 + r" and "e \<in> set (source_entries w s)"
  shows "height e \<le> r"
proof -
  from source_entries_cases [OF assms(2)] obtain root b where root: "et_parse w s = Inr root"
    and b: "find_child root ''body'' = Some b" and e: "e \<in> set (children b)"
    by blast
  from b have "b \<in> set (children root)" by (rule find_child_in_children)
  then have "Suc (height b) \<le> height root" by (rule height_child)
  moreover from e have "Suc (height e) \<le> height b" by (rule height_child)
  moreover from assms(1) root have "height root \<le> 2 + r" by simp
  ultimately show ?thesis by simp
qed

lemma merged_document_height:
  assumes "\<forall>e \<in> set es. height e \<le> r"
  shows "height (merged_document title_text es) \<le> 2 + r"
proof -
  have "fold max (map (\<lambda>c. Suc (height c)) es) 0 \<le> Suc r"
    using assms by (intro fold_max_le) simp_all
  then show ?thesis by (simp add: merged_document_def)
qed

text \<open>
  C1 (amended). For a configuration whose name and output are strings and whose sources
  are \<open>N\<close> path strings, each with an existence test that returns, with parsed trees as
  the parser builds them and nested within the recursion room, and an output that can
  be made, opened and serialized: \<open>build_bundle\<close> returns true, writes the serialization
  of the indented merge and reports as feed count the sum of the feed entries of the
  sources, where a source that is missing or whose parse raises counts 0 and draws a
  warning.
\<close>

theorem build_bundle_feed_count:
  assumes "load_yaml w c = Inr (PDict items)"
    and "py_get (PDict items) ''name'' (PStr ''Unnamed Bundle'') = Inr (PStr n)"
    and "py_get (PDict items) ''output'' (PStr ''bundle.opml.xml'') = Inr (PStr out)"
    and "py_get (PDict items) ''sources'' (PList []) = Inr (PList (map PStr srcs))"
    and "\<forall>s \<in> set srcs. \<exists>b. path_exists w s = Inr b"
    and "\<forall>s \<in> set srcs. \<forall>t. et_parse w s = Inr t \<longrightarrow>
           str_typed t \<and> height t \<le> 2 + indent_room w"
    and "mkdir w = None" and "open_write w out = None"
    and "\<forall>tree. indent (indent_room w)
                  (merged_document (PStr n) (concat (map (source_entries w) srcs))) = Inr tree \<longrightarrow>
                (\<exists>data. serialize w tree = Inr data)"
  shows "(\<exists>tree data.
            indent (indent_room w)
              (merged_document (PStr n) (concat (map (source_entries w) srcs))) = Inr tree \<and>
            serialize w tree = Inr data \<and>
            build_bundle w c =
              (True, [Building (PStr n), OutputLine (PStr out), SourcesLine (length srcs)] @
                     concat (map (source_warnings w) srcs) @
                     [EnsuredDir, Opened out, Wrote out data,
                      Created (sum_list (map (feeds_of_source w) srcs))])) \<and>
         (\<forall>s \<in> set srcs. \<forall>e. path_exists w s = Inr True \<and> et_parse w s = Inl e \<longrightarrow>
              feeds_of_source w s = 0 \<and> source_warnings w s = [WarnFailed s (str_exn e)])"
proof -
  let ?es = "concat (map (source_entries w) srcs)"
  have merge: "\<And>d. merge_opml_files w (PList (map PStr srcs)) (PStr n) d =
                 (Inr (merged_document (PStr n) ?es), concat (map (source_warnings w) srcs))"
    by (rule merge_opml_files_strings [OF assms(5)])
  have len: "py_len (PList (map PStr srcs)) = Inr (length srcs)" by (simp add: py_len_def)
  have entries: "\<forall>e \<in> set ?es. str_typed e \<and> height e \<le> indent_room w"
  proof
    fix e
    assume "e \<in> set ?es"
    then obtain s where s: "s \<in> set srcs" and e: "e \<in> set (source_entries w s)" by auto
    from assms(6) s have "\<forall>t. et_parse w s = Inr t \<longrightarrow> str_typed t"
      and "\<forall>t. et_parse w s = Inr t \<longrightarrow> height t \<le> 2 + indent_room w" by blast+
    then show "str_typed e \<and> height e \<le> indent_room w"
      using e source_entries_typed [of w s e] source_entries_height [of w s "indent_room w" e]
      by blast
  qed
  have typed: "str_typed (merged_document (PStr n) ?es)"
    using entries by (intro merged_document_typed) blast
  have bounded: "height (merged_document (PStr n) ?es) \<le> 2 + indent_room w"
    using entries by (intro merged_document_height) blast
  from indent_str_typed [OF typed bounded] obtain tree where
    ind: "indent (indent_room w) (merged_document (PStr n) ?es) = Inr tree" by blast
  with assms(9) obtain data where ser: "serialize w tree = Inr data" by blast
  have "length (findall_rss tree) = sum_list (map (feeds_of_source w) srcs)"
    using indent_count [OF ind] by (simp add: merged_document_count feeds_of_entries)
  moreover have "build_bundle w c =
           (True, [Building (PStr n), OutputLine (PStr out), SourcesLine (length srcs)] @
                  concat (map (source_warnings w) srcs) @
                  [EnsuredDir, Opened out, Wrote out data, Created (length (findall_rss tree))])"
    using assms(1-4) len merge assms(7) ind assms(8) ser by (rule build_bundle_success)
  ultimately have "\<exists>tree data.
            indent (indent_room w) (merged_document (PStr n) ?es) = Inr tree \<and>
            serialize w tree = Inr data \<and>
            build_bundle w c =
              (True, [Building (PStr n), OutputLine (PStr out), SourcesLine (length srcs)] @
                     concat (map (source_warnings w) srcs) @
                     [EnsuredDir, Opened out, Wrote out data,
                      Created (sum_list (map (feeds_of_source w) srcs))])"
    using ind ser by auto
  then show ?thesis by (auto simp: feeds_of_source_def source_warnings_def)
qed

theorem build_bundle_feed_count_witness:
  "\<exists>data. build_bundle tech_world ''tech.yaml'' =
     (True, [Building (PStr ''Tech''), OutputLine (PStr ''tech.opml.xml''), SourcesLine 4,
             WarnNotFound ''missing.opml.xml'',
             WarnFailed ''bad.opml.xml'' ''mismatched tag: line 3, column 2'',
             EnsuredDir, Opened ''tech.opml.xml'', Wrote ''tech.opml.xml'' data, Created 5])"
  using build_bundle_feed_count [of tech_world "''tech.yaml''" tech_items "''Tech''"
      "''tech.opml.xml''" "[''a.opml.xml'', ''missing.opml.xml'', ''bad.opml.xml'', ''b.opml.xml'']"]
  by (simp add: tech_world_def tech_items_def py_get_def source_warnings_def
      feeds_of_source_def doc_a_def doc_b_def feed_def find_child_def findall_rss_def
      is_rss_outline_def eval_nat_numeral) blast

text \<open>
  C1 as stated fails when the existence test of a listed source raises: the test stands
  before the \<open>try\<close> that guards a source, so the build is given up and returns false,
  though \<open>a.opml.xml\<close> is on storage and parses with three feed entries.
\<close>

theorem build_bundle_abort_counterexample:
  "path_exists locked_world ''a.opml.xml'' = Inr True \<and>
   feeds_of_source locked_world ''a.opml.xml'' = 3 \<and>
   build_bundle locked_world ''locked.yaml'' =
     (False, [Building (PStr ''Locked''), OutputLine (PStr ''locked.opml.xml''), SourcesLine 3,
              Failed (Raised ''[Errno 13] Permission denied'')])"
  by (simp add: locked_world_def locked_items_def tech_world_def build_bundle_def build_try_def
      load_bundle_config_def config_fields_def py_get_def py_len_def py_iter_def
      merge_opml_files_def feeds_of_source_def doc_a_def feed_def find_child_def
      findall_rss_def is_rss_outline_def)

section \<open>What the output depends on\<close>

lemma merge_opml_files_desc:
  "merge_opml_files w source_files bundle_name d = merge_opml_files w source_files bundle_name d'"
  by (simp add: merge_opml_files_def)

text \<open>
  C6. The description is read from the configuration and handed to the merge, which
  never uses it: two configurations that differ only in their description give the same
  run, the same lines printed and the same bytes written.
\<close>

theorem build_bundle_ignores_description:
  assumes "load_yaml w c1 = Inr (PDict items1)" and "load_yaml w c2 = Inr (PDict items2)"
    and "\<forall>k. k \<noteq> PStr ''description'' \<longrightarrow> map_of items1 k = map_of items2 k"
  shows "build_bundle w c1 = build_bundle w c2 \<and>
         (\<forall>source_files bundle_name d d'.
            merge_opml_files w source_files bundle_name d =
            merge_opml_files w source_files bundle_name d')"
proof -
  have "map_of items1 (PStr ''name'') = map_of items2 (PStr ''name'')"
    and "map_of items1 (PStr ''output'') = map_of items2 (PStr ''output'')"
    and "map_of items1 (PStr ''sources'') = map_of items2 (PStr ''sources'')"
    using assms(3) by simp_all
  then have "build_try w c1 = build_try w c2"
    unfolding build_try_def config_fields_def merge_opml_files_def
    using assms(1,2) by (simp add: load_bundle_config_def py_get_dict)
  then show ?thesis by (simp add: build_bundle_def merge_opml_files_def)
qed

theorem build_bundle_ignores_description_witness:
  "build_bundle tech_world ''tech.yaml'' = build_bundle tech_world ''tech_described.yaml''"
  using build_bundle_ignores_description [of tech_world "''tech.yaml''" tech_items
      "''tech_described.yaml''" "(PStr ''description'', PStr ''Technology feeds'') # tech_items"]
  by (simp add: tech_world_def)

section \<open>Defaults\<close>

lemma config_fields_dict:
  "config_fields (PDict items) =
     Inr (case map_of items (PStr ''name'') of None \<Rightarrow> PStr ''Unnamed Bundle'' | Some v \<Rightarrow> v,
          case map_of items (PStr ''description'') of None \<Rightarrow> PStr '''' | Some v \<Rightarrow> v,
          case map_of items (PStr ''output'') of None \<Rightarrow> PStr ''bundle.opml.xml'' | Some v \<Rightarrow> v,
          case map_of items (PStr ''sources'') of None \<Rightarrow> PList [] | Some v \<Rightarrow> v)"
  by (simp add: config_fields_def py_get_def)

text \<open>The first lines \<open>build_bundle\<close> prints name the bundle, its output and its sources.\<close>

lemma build_bundle_first_lines:
  assumes "load_yaml w c = Inr config"
    and "config_fields config = Inr (bundle_name, bundle_desc, output_file, source_files)"
  shows "\<exists>rest. snd (build_bundle w c) = Building bundle_name # OutputLine output_file # rest \<and>
           (\<forall>k. py_len source_files = Inr k \<longrightarrow> (\<exists>rest'. rest = SourcesLine k # rest'))"
  using assms
  by (auto simp: build_bundle_def build_try_def load_bundle_config_def Let_def
      split: sum.splits prod.splits option.splits pyval.splits)

text \<open>
  C7. For every mapping the four fields read from it are the value of the key when it is
  present and otherwise the default: name \<open>Unnamed Bundle\<close>, description empty, output
  \<open>bundle.opml.xml\<close>, sources the empty sequence. The build shows them: without a name it
  announces \<open>Unnamed Bundle\<close>, without an output it announces \<open>bundle.opml.xml\<close>, without
  sources it counts 0 files; and with none of the three, when the output can be made,
  opened and serialized, it writes the empty bundle titled \<open>Unnamed Bundle\<close> to
  \<open>bundle.opml.xml\<close>.
\<close>

theorem build_bundle_defaults:
  assumes "load_yaml w c = Inr (PDict items)"
  shows "config_fields (PDict items) =
           Inr (case map_of items (PStr ''name'') of
                  None \<Rightarrow> PStr ''Unnamed Bundle'' | Some v \<Rightarrow> v,
                case map_of items (PStr ''description'') of
                  None \<Rightarrow> PStr '''' | Some v \<Rightarrow> v,
                case map_of items (PStr ''output'') of
                  None \<Rightarrow> PStr ''bundle.opml.xml'' | Some v \<Rightarrow> v,
                case map_of items (PStr ''sources'') of
                  None \<Rightarrow> PList [] | Some v \<Rightarrow> v) \<and>
         (map_of items (PStr ''name'') = None \<longrightarrow>
            (\<exists>rest. snd (build_bundle w c) = Building (PStr ''Unnamed Bundle'') # rest)) \<and>
         (map_of items (PStr ''output'') = None \<longrightarrow>
            (\<exists>v rest. snd (build_bundle w c) =
                        Building v # OutputLine (PStr ''bundle.opml.xml'') # rest)) \<and>
         (map_of items (PStr ''sources'') = None \<longrightarrow>
            (\<exists>v v' rest. snd (build_bundle w c) =
                           Building v # OutputLine v' # SourcesLine 0 # rest)) \<and>
         (map_of items (PStr ''name'') = None \<and> map_of items (PStr ''output'') = None \<and>
          map_of items (PStr ''sources'') = None \<and>
          mkdir w = None \<and> open_write w ''bundle.opml.xml'' = None \<and>
          serialize w (empty_bundle_document (PStr ''Unnamed Bundle'')) = Inr data \<longrightarrow>
            build_bundle w c =
              (True, [Building (PStr ''Unnamed Bundle''), OutputLine (PStr ''bundle.opml.xml''),
                      SourcesLine 0, EnsuredDir, Opened ''bundle.opml.xml'',
                      Wrote ''bundle.opml.xml'' data, Created 0]))"
proof -
  note first = build_bundle_first_lines [OF assms config_fields_dict]
  have nm: "map_of items (PStr ''name'') = None \<longrightarrow>
            (\<exists>rest. snd (build_bundle w c) = Building (PStr ''Unnamed Bundle'') # rest)"
    using first by auto
  have outp: "map_of items (PStr ''output'') = None \<longrightarrow>
            (\<exists>v rest. snd (build_bundle w c) =
                        Building v # OutputLine (PStr ''bundle.opml.xml'') # rest)"
    using first by auto
  have srcl: "map_of items (PStr ''sources'') = None \<longrightarrow>
            (\<exists>v v' rest. snd (build_bundle w c) =
                           Building v # OutputLine v' # SourcesLine 0 # rest)"
    using first by (auto simp: py_len_def)
  have bare: "build_bundle w c =
              (True, [Building (PStr ''Unnamed Bundle''), OutputLine (PStr ''bundle.opml.xml''),
                      SourcesLine 0, EnsuredDir, Opened ''bundle.opml.xml'',
                      Wrote ''bundle.opml.xml'' data, Created 0])"
    if absent: "map_of items (PStr ''name'') = None" "map_of items (PStr ''output'') = None"
        "map_of items (PStr ''sources'') = None"
      and io: "mkdir w = None" "open_write w ''bundle.opml.xml'' = None"
        "serialize w (empty_bundle_document (PStr ''Unnamed Bundle'')) = Inr data"
  proof -
    have n: "py_get (PDict items) ''name'' (PStr ''Unnamed Bundle'') = Inr (PStr ''Unnamed Bundle'')"
      and out: "py_get (PDict items) ''output'' (PStr ''bundle.opml.xml'') =
                  Inr (PStr ''bundle.opml.xml'')"
      and srcs: "py_get (PDict items) ''sources'' (PList []) = Inr (PList [])"
      using absent by (simp_all add: py_get_def)
    have len: "py_len (PList []) = Inr 0" by (simp add: py_len_def)
    have merge: "\<And>d. merge_opml_files w (PList []) (PStr ''Unnamed Bundle'') d =
                   (Inr (merged_document (PStr ''Unnamed Bundle'') []), [])"
      by (simp add: merge_opml_files_def py_iter_def merged_document_def)
    have count: "length (findall_rss (empty_bundle_document (PStr ''Unnamed Bundle''))) = 0"
      using indent_count [OF indent_empty_bundle [of "indent_room w" "PStr ''Unnamed Bundle''"]]
      by (simp add: merged_document_count)
    have "build_bundle w c =
           (True, [Building (PStr ''Unnamed Bundle''), OutputLine (PStr ''bundle.opml.xml''),
                   SourcesLine 0] @ [] @
                  [EnsuredDir, Opened ''bundle.opml.xml'', Wrote ''bundle.opml.xml'' data,
                   Created (length (findall_rss (empty_bundle_document (PStr ''Unnamed Bundle''))))])"
      using assms n out srcs len merge io(1) indent_empty_bundle io(2,3)
      by (rule build_bundle_success)
    then show ?thesis by (simp add: count)
  qed
  from config_fields_dict nm outp srcl bare show ?thesis by blast
qed

theorem build_bundle_defaults_witness:
  "build_bundle tech_world ''bare.yaml'' =
     (True, [Building (PStr ''Unnamed Bundle''), OutputLine (PStr ''bundle.opml.xml''),
             SourcesLine 0, EnsuredDir, Opened ''bundle.opml.xml'',
             Wrote ''bundle.opml.xml'' (render (empty_bundle_document (PStr ''Unnamed Bundle''))),
             Created 0]) \<and>
   config_fields (PDict []) =
     Inr (PStr ''Unnamed Bundle'', PStr '''', PStr ''bundle.opml.xml'', PList [])"
  using build_bundle_defaults [of tech_world "''bare.yaml''" "[]"
      "render (empty_bundle_document (PStr ''Unnamed Bundle''))"]
  by (simp add: tech_world_def)

end
